theory Spec2Isabelle
  imports Main "HOL-Library.Word"
begin

section \<open>The slicing example program (go/main.go)\<close>

subsection \<open>Go slices and slice expressions\<close>

text \<open>
  A Go slice is a window on a backing array: where the window starts, how many elements
  it shows (\<open>len\<close>) and how many the array has from the start of the window (\<open>cap\<close>).
  A composite literal \<^verbatim>\<open>[]string{...}\<close> allocates an array that holds exactly the listed
  elements, so its \<open>len\<close> and \<open>cap\<close> are both the number of elements.
\<close>

record 'a slice =
  array :: "'a list"
  off :: nat
  len :: nat
  cap :: nat

definition literal :: "'a list \<Rightarrow> 'a slice" where
  "literal xs = \<lparr>array = xs, off = 0, len = length xs, cap = length xs\<rparr>"

definition items :: "'a slice \<Rightarrow> 'a list" where
  "items s = take (len s) (drop (off s) (array s))"

datatype panic =
  SliceBoundsOutOfRange int int nat
| SendOnClosedChannel
| CloseOfClosedChannel

text \<open>
  The bounds a slice expression \<^verbatim>\<open>s[low:high]\<close> works with: an omitted \<open>low\<close> is 0 and
  an omitted \<open>high\<close> is \<open>len(s)\<close>.
\<close>

definition low_bound :: "int option \<Rightarrow> int" where
  "low_bound low = (case low of None \<Rightarrow> 0 | Some i \<Rightarrow> i)"

definition high_bound :: "'a slice \<Rightarrow> int option \<Rightarrow> int" where
  "high_bound s high = (case high of None \<Rightarrow> int (len s) | Some j \<Rightarrow> j)"

text \<open>
  Go evaluates \<^verbatim>\<open>s[low:high]\<close> on a slice when \<open>0 \<le> low \<le> high \<le> cap(s)\<close> and panics
  at run time otherwise. The result shares the backing array.
\<close>

definition slice_expr :: "'a slice \<Rightarrow> int option \<Rightarrow> int option \<Rightarrow> panic + 'a slice" where
  "slice_expr s low high =
     (let lo = low_bound low; hi = high_bound s high
      in if 0 \<le> lo \<and> lo \<le> hi \<and> hi \<le> int (cap s)
         then Inr \<lparr>array = array s, off = off s + nat lo,
                   len = nat (hi - lo), cap = cap s - nat lo\<rparr>
         else Inl (SliceBoundsOutOfRange lo hi (cap s)))"

subsection \<open>Console output\<close>

text \<open>
  What a process can observe and change: its command line, its environment variables,
  its standard input, and the bytes it has written to standard output.
\<close>

record world =
  args :: "string list"
  environ :: "(string \<times> string) list"
  stdin :: string
  stdout :: string

text \<open>
  \<^verbatim>\<open>fmt.Println\<close> of a \<^verbatim>\<open>[]string\<close> writes the elements between square brackets, separated
  by one space, and ends the line.
\<close>

fun join :: "string \<Rightarrow> string list \<Rightarrow> string" where
  "join sep [] = []"
| "join sep [x] = x"
| "join sep (x # y # ys) = x @ sep @ join sep (y # ys)"

definition Sprint :: "string slice \<Rightarrow> string" where
  "Sprint l = ''['' @ join '' '' (items l) @ '']''"

definition Println :: "string slice \<Rightarrow> world \<Rightarrow> world" where
  "Println l w = w\<lparr>stdout := stdout w @ Sprint l @ ''\<newline>''\<rparr>"

text \<open>The lines of a console output: the text between line ends.\<close>

fun split_lines :: "string \<Rightarrow> string \<Rightarrow> string list" where
  "split_lines cur [] = (if cur = [] then [] else [cur])"
| "split_lines cur (c # cs) =
     (if c = CHR 0x0A then cur # split_lines [] cs else split_lines (cur @ [c]) cs)"

definition lines_of :: "string \<Rightarrow> string list" where
  "lines_of out = split_lines [] out"

subsection \<open>The program\<close>

text \<open>
  \<^verbatim>\<open>
  func main() {
      s := []string{"a", "b", "c", "d", "e", "f"}
      l := s[2:5]
      fmt.Println(l) // [c d e]
      l = s[:5]
      fmt.Println(l) // [a b c d e]
      l = s[2:]
      fmt.Println(l) // [c d e f]
  }
  \<close>
  A run returns the world it leaves and the panic that stopped it, if one did. A panic
  ends the program where it is raised: what was printed before stays printed.
\<close>

definition s :: "string slice" where
  "s = literal [''a'', ''b'', ''c'', ''d'', ''e'', ''f'']"

definition main :: "world \<Rightarrow> panic option \<times> world" where
  "main w0 =
     (case slice_expr s (Some 2) (Some 5) of
        Inl p \<Rightarrow> (Some p, w0)
      | Inr l1 \<Rightarrow>
          let w1 = Println l1 w0 in
          (case slice_expr s None (Some 5) of
             Inl p \<Rightarrow> (Some p, w1)
           | Inr l2 \<Rightarrow>
               let w2 = Println l2 w1 in
               (case slice_expr s (Some 2) None of
                  Inl p \<Rightarrow> (Some p, w2)
                | Inr l3 \<Rightarrow> (None, Println l3 w2))))"

text \<open>A process starts with nothing written to its standard output.\<close>

definition start :: "string list \<Rightarrow> (string \<times> string) list \<Rightarrow> string \<Rightarrow> world" where
  "start as env inp = \<lparr>args = as, environ = env, stdin = inp, stdout = []\<rparr>"

definition run_main :: "string list \<Rightarrow> (string \<times> string) list \<Rightarrow> string \<Rightarrow> panic option \<times> world" where
  "run_main as env inp = main (start as env inp)"

section \<open>The error-handling tutorial (go/basic_syntax.md, Errors)\<close>

text \<open>
  Go's \<open>int\<close> on a 64-bit platform: 64 bits, two's complement, arithmetic that wraps
  around. \<open>sint\<close> reads the signed value.
\<close>

type_synonym go_int = "64 word"

text \<open>
  \<^verbatim>\<open>
  func f1(arg int) (int, error) {
      if arg == 42 {
          return -1, errors.New("can't work with 42")
      }
      return arg + 3, nil
  }
  \<close>
  An \<open>error\<close> result is an interface value: \<open>nil\<close> (\<open>None\<close>) or a value of one of the
  two dynamic types the tutorial uses, the \<open>*errorString\<close> that \<^verbatim>\<open>errors.New\<close> returns
  and the tutorial's own \<open>*argError\<close>, declared further down in the tutorial. The
  parameter \<open>arg\<close> of \<open>f1\<close> and \<open>f2\<close> is written \<open>a\<close> here, since \<open>arg\<close> names the
  field of \<open>argError\<close>.
\<close>

record argError =
  arg :: go_int
  prob :: string

datatype error = errorString string | argErrorPtr argError

definition errors_New :: "string \<Rightarrow> error" where
  "errors_New text = errorString text"

definition f1 :: "go_int \<Rightarrow> go_int \<times> error option" where
  "f1 a = (if a = 42 then (- 1, Some (errors_New ''can't work with 42'')) else (a + 3, None))"

text \<open>The verb \<open>%d\<close> of \<^verbatim>\<open>fmt.Sprintf\<close>: the signed value in decimal.\<close>

fun decimal :: "nat \<Rightarrow> string" where
  "decimal n =
     (if n < 10 then [''0123456789'' ! n]
      else decimal (n div 10) @ [''0123456789'' ! (n mod 10)])"

definition fmt_d :: "go_int \<Rightarrow> string" where
  "fmt_d i = (if sint i < 0 then ''-'' @ decimal (nat (- sint i)) else decimal (nat (sint i)))"

text \<open>
  \<^verbatim>\<open>
  type argError struct {
      arg  int
      prob string
  }

  func (e *argError) Error() string {
      return fmt.Sprintf("%d - %s", e.arg, e.prob)
  }

  func f2(arg int) (int, error) {
      if arg == 42 {
          return -1, &argError{arg, "can't work with it"}
      }
      return arg + 3, nil
  }
  \<close>
  \<open>Error\<close> is the method of the \<open>error\<close> interface; on an \<open>*errorString\<close> it returns the
  text given to \<^verbatim>\<open>errors.New\<close>.
\<close>

fun Error :: "error \<Rightarrow> string" where
  "Error (errorString text) = text"
| "Error (argErrorPtr e) = fmt_d (arg e) @ '' - '' @ prob e"

definition f2 :: "go_int \<Rightarrow> go_int \<times> error option" where
  "f2 a =
     (if a = 42 then (- 1, Some (argErrorPtr \<lparr>arg = a, prob = ''can't work with it''\<rparr>))
      else (a + 3, None))"

section \<open>Memory\<close>

text \<open>
  Variables and struct values that outlive the call that creates them live in memory:
  a cell for every address, and the next address the allocator hands out. A pointer is
  an address (\<open>Some a\<close>) or \<open>nil\<close> (\<open>None\<close>). Allocation initialises the cell at the fresh
  address and moves the allocator on, so no two allocations return the same address.
\<close>

record 'c memory =
  cells :: "nat \<Rightarrow> 'c"
  fresh :: nat

definition new :: "'c \<Rightarrow> 'c memory \<Rightarrow> nat \<times> 'c memory" where
  "new c m = (fresh m, m\<lparr>cells := (cells m)(fresh m := c), fresh := Suc (fresh m)\<rparr>)"

section \<open>The generic linked list (go/basic_syntax.md, Generics)\<close>

text \<open>
  \<^verbatim>\<open>
  type element[T any] struct {
      next *element[T]
      val  T
  }

  type List[T any] struct {
      head, tail *element[T]
  }
  \<close>
\<close>

record 'a element =
  "next" :: "nat option"
  val :: 'a

record List =
  head :: "nat option"
  tail :: "nat option"

text \<open>
  \<^verbatim>\<open>
  func (lst *List[T]) Push(v T) {
      if lst.tail == nil {
          lst.head = &element[T]{val: v}
          lst.tail = lst.head
      } else {
          lst.tail.next = &element[T]{val: v}
          lst.tail = lst.tail.next
      }
  }
  \<close>
  The method works on the list it is called on and on the memory of elements; it returns
  both as it leaves them. The composite literal \<^verbatim>\<open>element[T]{val: v}\<close> leaves \<open>next\<close> at
  its zero value \<open>nil\<close>.
\<close>

definition Push :: "'a \<Rightarrow> List \<times> 'a element memory \<Rightarrow> List \<times> 'a element memory" where
  "Push v st =
     (case st of (lst, m) \<Rightarrow>
        (case tail lst of
           None \<Rightarrow>
             (case new \<lparr>next = None, val = v\<rparr> m of (p, m1) \<Rightarrow>
                let lst1 = lst\<lparr>head := Some p\<rparr>
                in (lst1\<lparr>tail := head lst1\<rparr>, m1))
         | Some t \<Rightarrow>
             (case new \<lparr>next = None, val = v\<rparr> m of (p, m1) \<Rightarrow>
                let m2 = m1\<lparr>cells := (cells m1)(t := (cells m1 t)\<lparr>next := Some p\<rparr>)\<rparr>
                in (lst\<lparr>tail := next (cells m2 t)\<rparr>, m2))))"

text \<open>
  \<^verbatim>\<open>
  func (lst *List[T]) GetAll() []T {
      var elems []T
      for e := lst.head; e != nil; e = e.next {
          elems = append(elems, e.val)
      }
      return elems
  }
  \<close>
  The loop follows \<open>next\<close> pointers until it meets \<open>nil\<close>; on a cyclic chain it never
  does, and then \<open>GetAll\<close> returns nothing (\<open>None\<close>).
\<close>

partial_function (option) GetAll_loop ::
  "'a element memory \<Rightarrow> nat option \<Rightarrow> 'a list \<Rightarrow> 'a list option" where
  "GetAll_loop m e elems =
     (case e of
        None \<Rightarrow> Some elems
      | Some a \<Rightarrow> GetAll_loop m (next (cells m a)) (elems @ [val (cells m a)]))"

definition GetAll :: "List \<times> 'a element memory \<Rightarrow> 'a list option" where
  "GetAll st = (case st of (lst, m) \<Rightarrow> GetAll_loop m (head lst) [])"

text \<open>The list \<^verbatim>\<open>List[T]{}\<close>, and a run of \<open>Push\<close> calls, one for each value in order.\<close>

definition empty_List :: List where
  "empty_List = \<lparr>head = None, tail = None\<rparr>"

fun pushes :: "'a list \<Rightarrow> List \<times> 'a element memory \<Rightarrow> List \<times> 'a element memory" where
  "pushes [] st = st"
| "pushes (v # vs) st = pushes vs (Push v st)"

subsection \<open>Chains of elements\<close>

text \<open>
  \<open>chain m p as\<close>: starting at pointer \<open>p\<close>, the \<open>next\<close> pointers lead through exactly the
  allocated addresses \<open>as\<close> and then to \<open>nil\<close>.
\<close>

fun chain :: "'a element memory \<Rightarrow> nat option \<Rightarrow> nat list \<Rightarrow> bool" where
  "chain m p [] = (p = None)"
| "chain m p (a # as) = (p = Some a \<and> a < fresh m \<and> chain m (next (cells m a)) as)"

text \<open>
  The memory after an element holding \<open>v\<close> has been allocated and linked behind the
  element at \<open>t\<close>.
\<close>

definition link :: "'a element memory \<Rightarrow> nat \<Rightarrow> 'a \<Rightarrow> 'a element memory" where
  "link m t v =
     \<lparr>cells = (cells m)(fresh m := \<lparr>next = None, val = v\<rparr>,
                        t := ((cells m)(fresh m := \<lparr>next = None, val = v\<rparr>)) t \<lparr>next := Some (fresh m)\<rparr>),
      fresh = Suc (fresh m)\<rparr>"

text \<open>
  The invariant of a list that holds the values \<open>vs\<close>: a chain from \<open>head\<close> whose
  elements hold \<open>vs\<close> in order, with \<open>tail\<close> at its last element (or \<open>nil\<close> when empty).
\<close>

definition holds :: "List \<times> 'a element memory \<Rightarrow> 'a list \<Rightarrow> bool" where
  "holds st vs =
     (case st of (lst, m) \<Rightarrow>
        \<exists>as. chain m (head lst) as \<and> map (\<lambda>a. val (cells m a)) as = vs
             \<and> tail lst = (if as = [] then None else Some (last as)))"

section \<open>Closures (go/basic_syntax.md, Closures)\<close>

text \<open>
  \<^verbatim>\<open>
  func intSeq() func() int {
      i := 0
      return func() int {
          i++
          return i
      }
  }
  \<close>
  The variable \<open>i\<close> outlives the call of \<open>intSeq\<close> that declares it, so it lives in
  memory; the function value returned is the code of the function literal together with
  the address of the \<open>i\<close> it captured. Calling it increments that \<open>i\<close> and returns the
  new value.

  \<open>i\<close> is a Go \<open>int\<close>, and nothing in the tutorial fixes the platform: an \<open>int\<close> has 32
  bits on a 32-bit build and 64 bits on a 64-bit build, and \<open>i++\<close> wraps around at that
  width. The counter is therefore a word of any width \<open>'w\<close>; its largest value is
  \<open>2 ^ (LENGTH('w) - 1) - 1\<close>.
\<close>

datatype closure = FuncLit nat

definition intSeq :: "'w::len word memory \<Rightarrow> closure \<times> 'w word memory" where
  "intSeq m = (case new 0 m of (i, m1) \<Rightarrow> (FuncLit i, m1))"

fun call :: "closure \<Rightarrow> 'w::len word memory \<Rightarrow> 'w word \<times> 'w word memory" where
  "call (FuncLit i) m =
     (let m1 = m\<lparr>cells := (cells m)(i := cells m i + 1)\<rparr> in (cells m1 i, m1))"

text \<open>
  What a program can do with these functions: call \<open>intSeq\<close> again, or call a function
  value it holds. \<open>exec\<close> runs a sequence of such actions; \<open>returns f\<close> runs it too and
  collects, in order, what the calls of \<open>f\<close> return.
\<close>

datatype action = NewSeq | Call closure

fun exec :: "action list \<Rightarrow> 'w::len word memory \<Rightarrow> 'w word memory" where
  "exec [] m = m"
| "exec (NewSeq # as) m = exec as (snd (intSeq m))"
| "exec (Call g # as) m = exec as (snd (call g m))"

fun returns :: "closure \<Rightarrow> action list \<Rightarrow> 'w::len word memory \<Rightarrow> 'w word list" where
  "returns f [] m = []"
| "returns f (NewSeq # as) m = returns f as (snd (intSeq m))"
| "returns f (Call g # as) m =
     (case call g m of (r, m1) \<Rightarrow> if g = f then r # returns f as m1 else returns f as m1)"

text \<open>The memory of a program that has not allocated anything yet.\<close>

definition boot :: "'w::len word memory" where
  "boot = \<lparr>cells = (\<lambda>_. 0), fresh = 0\<rparr>"

section \<open>The worker pool (go/concurrency.md, Worker Pools)\<close>

subsection \<open>Buffered channels\<close>

text \<open>
  A channel made by \<^verbatim>\<open>make(chan int, n)\<close> holds up to \<open>n\<close> values in arrival order. What
  an operation on it comes to: it cannot proceed now (the goroutine waits), it panics, or
  it takes effect. A send on a closed channel panics, and so does closing a channel
  twice; a send waits while the buffer is full. A receive takes the oldest value; on an
  empty channel it waits, unless the channel is closed, and then it yields the zero value
  with \<open>ok = false\<close>. A \<open>range\<close> loop over a channel ends at that point.
\<close>

record chan =
  buffer :: "go_int list"
  capacity :: nat
  is_closed :: bool

datatype 'a outcome = NoStep | Panics panic | Steps 'a

definition make_chan :: "nat \<Rightarrow> chan" where
  "make_chan n = \<lparr>buffer = [], capacity = n, is_closed = False\<rparr>"

definition send :: "go_int \<Rightarrow> chan \<Rightarrow> chan outcome" where
  "send v c =
     (if is_closed c then Panics SendOnClosedChannel
      else if length (buffer c) < capacity c then Steps (c\<lparr>buffer := buffer c @ [v]\<rparr>)
      else NoStep)"

definition recv :: "chan \<Rightarrow> (go_int \<times> bool \<times> chan) outcome" where
  "recv c =
     (case buffer c of
        v # vs \<Rightarrow> Steps (v, True, c\<lparr>buffer := vs\<rparr>)
      | [] \<Rightarrow> if is_closed c then Steps (0, False, c) else NoStep)"

definition close :: "chan \<Rightarrow> chan outcome" where
  "close c = (if is_closed c then Panics CloseOfClosedChannel else Steps (c\<lparr>is_closed := True\<rparr>))"

subsection \<open>The program\<close>

text \<open>
  \<^verbatim>\<open>
  var jobs = make(chan int, 10)
  var results = make(chan int, 10)

  func worker(id int) {
      for job := range jobs {
          // Process job
          results <- job * 2
      }
  }

  func main() {
      const numWorkers = 3
      for i := 1; i <= numWorkers; i++ {
          go worker(i)
      }

      for i := 1; i <= 5; i++ {
          jobs <- i
      }
      close(jobs)

      for i := 1; i <= 5; i++ {
          result := <-results
          fmt.Println("Result:", result)
      }
  }
  \<close>
  Each goroutine is a small machine: where it stands in its code, with the local values
  it holds there. \<open>main\<close> stands in one of its three loops with the loop variable \<open>i\<close>,
  at \<open>close(jobs)\<close>, or has returned; a worker stands at the receive of its \<open>range\<close> loop,
  at the send with the value \<open>job * 2\<close> to deliver, or has returned; it never uses its
  parameter \<open>id\<close>. The state of the
  program also keeps the two channels, what was printed, the panic that ended the program
  if one did, and a log of every send and close performed on \<open>jobs\<close>, in the order they
  took effect.
\<close>

datatype main_at = Spawn go_int | Send go_int | Close | Receive go_int | Return

datatype worker_at = Ranging | Deliver go_int | Done

datatype jobs_op = Sent go_int | Closed

record pool =
  jobs :: chan
  results :: chan
  main_at :: main_at
  workers :: "worker_at list"
  console :: string
  crashed :: "panic option"
  jobs_log :: "jobs_op list"

definition numWorkers :: go_int where
  "numWorkers = 3"

text \<open>One step of a worker standing at \<open>w\<close>: its new place and the new state.\<close>

fun worker :: "worker_at \<Rightarrow> pool \<Rightarrow> (worker_at \<times> pool) outcome" where
  "worker Ranging p =
     (case recv (jobs p) of
        NoStep \<Rightarrow> NoStep
      | Panics e \<Rightarrow> Panics e
      | Steps (job, ok, c) \<Rightarrow>
          if ok then Steps (Deliver (job * 2), p\<lparr>jobs := c\<rparr>) else Steps (Done, p\<lparr>jobs := c\<rparr>))"
| "worker (Deliver v) p =
     (case send v (results p) of
        NoStep \<Rightarrow> NoStep
      | Panics e \<Rightarrow> Panics e
      | Steps c \<Rightarrow> Steps (Ranging, p\<lparr>results := c\<rparr>))"
| "worker Done p = NoStep"

text \<open>
  One step of \<open>main\<close>. A loop test and the statement it leads to form one step: the test
  reads only the goroutine's own \<open>i\<close>. Go compares \<open>int\<close>s as signed values.
\<close>

definition pool_main :: "pool \<Rightarrow> pool outcome" where
  "pool_main p =
     (case main_at p of
        Spawn i \<Rightarrow>
          if sint i \<le> sint numWorkers
          then Steps (p\<lparr>workers := workers p @ [Ranging], main_at := Spawn (i + 1)\<rparr>)
          else Steps (p\<lparr>main_at := Send 1\<rparr>)
      | Send i \<Rightarrow>
          if sint i \<le> 5
          then (case send i (jobs p) of
                  NoStep \<Rightarrow> NoStep
                | Panics e \<Rightarrow> Panics e
                | Steps c \<Rightarrow>
                    Steps (p\<lparr>jobs := c, jobs_log := jobs_log p @ [Sent i], main_at := Send (i + 1)\<rparr>))
          else Steps (p\<lparr>main_at := Close\<rparr>)
      | Close \<Rightarrow>
          (case close (jobs p) of
             NoStep \<Rightarrow> NoStep
           | Panics e \<Rightarrow> Panics e
           | Steps c \<Rightarrow>
               Steps (p\<lparr>jobs := c, jobs_log := jobs_log p @ [Closed], main_at := Receive 1\<rparr>))
      | Receive i \<Rightarrow>
          if sint i \<le> 5
          then (case recv (results p) of
                  NoStep \<Rightarrow> NoStep
                | Panics e \<Rightarrow> Panics e
                | Steps (result, ok, c) \<Rightarrow>
                    Steps (p\<lparr>results := c,
                             console := console p @ ''Result: '' @ fmt_d result @ ''\<newline>'',
                             main_at := Receive (i + 1)\<rparr>))
          else Steps (p\<lparr>main_at := Return\<rparr>)
      | Return \<Rightarrow> NoStep)"

text \<open>
  The scheduler picks a goroutine; if it can proceed it takes one step, otherwise nothing
  happens. A panic in any goroutine ends the program, and so does the return of \<open>main\<close>:
  after either, nothing changes any more. An execution is the sequence of the scheduler's
  picks, from the initial state.
\<close>

datatype goroutine = Main | Worker nat

definition step :: "goroutine \<Rightarrow> pool \<Rightarrow> pool" where
  "step g p =
     (if crashed p = None \<and> main_at p \<noteq> Return
      then (case g of
              Main \<Rightarrow>
                (case pool_main p of
                   NoStep \<Rightarrow> p
                 | Panics e \<Rightarrow> p\<lparr>crashed := Some e\<rparr>
                 | Steps p' \<Rightarrow> p')
            | Worker k \<Rightarrow>
                if k < length (workers p)
                then (case worker (workers p ! k) p of
                        NoStep \<Rightarrow> p
                      | Panics e \<Rightarrow> p\<lparr>crashed := Some e\<rparr>
                      | Steps (w, p') \<Rightarrow> p'\<lparr>workers := (workers p')[k := w]\<rparr>)
                else p)
      else p)"

fun run :: "goroutine list \<Rightarrow> pool \<Rightarrow> pool" where
  "run [] p = p"
| "run (g # gs) p = run gs (step g p)"

definition init :: pool where
  "init = \<lparr>jobs = make_chan 10, results = make_chan 10, main_at = Spawn 1, workers = [],
           console = [], crashed = None, jobs_log = []\<rparr>"

text \<open>Whether a log of operations on a channel has a send after a close.\<close>

fun is_send :: "jobs_op \<Rightarrow> bool" where
  "is_send (Sent v) = True"
| "is_send Closed = False"

fun send_after_close :: "jobs_op list \<Rightarrow> bool" where
  "send_after_close [] = False"
| "send_after_close (Closed # ops) = list_ex is_send ops"
| "send_after_close (Sent v # ops) = send_after_close ops"

subsection \<open>What holds at every point of an execution\<close>

text \<open>
  The sends the second loop of \<open>main\<close> performs, and what ties the place of \<open>main\<close> to
  the log of \<open>jobs\<close> and to whether \<open>jobs\<close> is closed: before the second loop nothing
  was sent; in it, with loop variable \<open>i\<close>, the values below \<open>i\<close> were; at \<open>close(jobs)\<close>
  all five were; after it the close follows them. Until the close the channel is open.
\<close>

definition five_sends :: "jobs_op list" where
  "five_sends = [Sent 1, Sent 2, Sent 3, Sent 4, Sent 5]"

fun main_ok :: "main_at \<Rightarrow> jobs_op list \<Rightarrow> bool \<Rightarrow> bool" where
  "main_ok (Spawn i) log cl = (log = [] \<and> \<not> cl)"
| "main_ok (Send i) log cl =
     (\<not> cl \<and> ((i = 1 \<and> log = []) \<or> (i = 2 \<and> log = [Sent 1]) \<or> (i = 3 \<and> log = [Sent 1, Sent 2])
        \<or> (i = 4 \<and> log = [Sent 1, Sent 2, Sent 3]) \<or> (i = 5 \<and> log = [Sent 1, Sent 2, Sent 3, Sent 4])
        \<or> (i = 6 \<and> log = five_sends)))"
| "main_ok Close log cl = (log = five_sends \<and> \<not> cl)"
| "main_ok (Receive i) log cl = (log = five_sends @ [Closed] \<and> cl)"
| "main_ok Return log cl = (log = five_sends @ [Closed] \<and> cl)"

definition pool_inv :: "pool \<Rightarrow> bool" where
  "pool_inv p = (crashed p = None \<and> \<not> is_closed (results p)
            \<and> main_ok (main_at p) (jobs_log p) (is_closed (jobs p)))"

text \<open>
  An execution in which \<open>main\<close> starts the workers and sends the first job, a worker takes
  it and delivers its double, \<open>main\<close> sends the second job, another worker takes it, and
  \<open>main\<close> sends the rest and closes \<open>jobs\<close>.
\<close>

definition sched :: "goroutine list" where
  "sched = [Main, Main, Main, Main, Main, Worker 0, Worker 0, Main, Worker 2, Main, Main, Main, Main, Main]"

section \<open>Properties of the slicing example\<close>

lemma s_fields: "array s = [''a'', ''b'', ''c'', ''d'', ''e'', ''f'']" "off s = 0" "len s = 6" "cap s = 6"
  by (simp_all add: s_def literal_def)

lemma slice_2_5:
  "slice_expr s (Some 2) (Some 5) = Inr \<lparr>array = array s, off = 2, len = 3, cap = 4\<rparr>"
  by (simp add: slice_expr_def low_bound_def high_bound_def s_fields)

lemma slice_0_5:
  "slice_expr s None (Some 5) = Inr \<lparr>array = array s, off = 0, len = 5, cap = 6\<rparr>"
  by (simp add: slice_expr_def low_bound_def high_bound_def s_fields)

lemma slice_2_6:
  "slice_expr s (Some 2) None = Inr \<lparr>array = array s, off = 2, len = 4, cap = 4\<rparr>"
  by (simp add: slice_expr_def low_bound_def high_bound_def s_fields)

lemma Sprint_2_5: "Sprint \<lparr>array = array s, off = 2, len = 3, cap = 4\<rparr> = ''[c d e]''"
  by (simp add: Sprint_def items_def s_fields)

lemma Sprint_0_5: "Sprint \<lparr>array = array s, off = 0, len = 5, cap = 6\<rparr> = ''[a b c d e]''"
  by (simp add: Sprint_def items_def s_fields)

lemma Sprint_2_6: "Sprint \<lparr>array = array s, off = 2, len = 4, cap = 4\<rparr> = ''[c d e f]''"
  by (simp add: Sprint_def items_def s_fields)

lemma main_result:
  "main w = (None, w\<lparr>stdout := stdout w @ ''[c d e]\<newline>[a b c d e]\<newline>[c d e f]\<newline>''\<rparr>)"
  by (simp add: main_def slice_2_5 slice_0_5 slice_2_6 Println_def
      Sprint_2_5 Sprint_0_5 Sprint_2_6)

lemma lines_of_output:
  "lines_of ''[c d e]\<newline>[a b c d e]\<newline>[c d e f]\<newline>'' = [''[c d e]'', ''[a b c d e]'', ''[c d e f]'']"
  by (simp add: lines_of_def)

lemma run_main_stdout:
  "stdout (snd (run_main as env inp)) = ''[c d e]\<newline>[a b c d e]\<newline>[c d e f]\<newline>''"
  by (simp add: run_main_def main_result start_def)

text \<open>
  C1. The example program takes no input and reads no configuration: whatever the command
  line, the environment and the standard input are, a run ends without a panic, leaves
  them as they were, and writes the same fixed text, made of exactly three lines, each
  the printed form of a slice. Any two runs write the same output.
\<close>

theorem main_output_is_constant:
  "main w = (None, w\<lparr>stdout := stdout w @ ''[c d e]\<newline>[a b c d e]\<newline>[c d e f]\<newline>''\<rparr>)
   \<and> stdout (snd (run_main as env inp)) = ''[c d e]\<newline>[a b c d e]\<newline>[c d e f]\<newline>''
   \<and> lines_of (stdout (snd (run_main as env inp))) = [''[c d e]'', ''[a b c d e]'', ''[c d e f]'']
   \<and> length (lines_of (stdout (snd (run_main as env inp)))) = 3
   \<and> stdout (snd (run_main as env inp)) = stdout (snd (run_main as' env' inp'))"
  by (simp add: main_result run_main_stdout lines_of_output)

text \<open>
  C2. With \<open>s = ["a","b","c","d","e","f"]\<close>, the slice expression \<open>s[2:5]\<close> is
  \<open>["c","d","e"]\<close>, and the first line the program prints is \<open>[c d e]\<close>.
\<close>

theorem slice_2_5_first_line:
  "items s = [''a'', ''b'', ''c'', ''d'', ''e'', ''f'']
   \<and> (\<exists>l. slice_expr s (Some 2) (Some 5) = Inr l \<and> items l = [''c'', ''d'', ''e''])
   \<and> lines_of (stdout (snd (run_main as env inp))) ! 0 = ''[c d e]''"
  by (simp add: slice_2_5 items_def s_fields run_main_stdout lines_of_output)

text \<open>
  C3. With the same \<open>s\<close>, the slice expression \<open>s[:5]\<close> is \<open>["a","b","c","d","e"]\<close>, and
  the second line the program prints is \<open>[a b c d e]\<close>.
\<close>

theorem slice_to_5_second_line:
  "items s = [''a'', ''b'', ''c'', ''d'', ''e'', ''f'']
   \<and> (\<exists>l. slice_expr s None (Some 5) = Inr l \<and> items l = [''a'', ''b'', ''c'', ''d'', ''e''])
   \<and> lines_of (stdout (snd (run_main as env inp))) ! 1 = ''[a b c d e]''"
  by (simp add: slice_0_5 items_def s_fields run_main_stdout lines_of_output)

text \<open>
  C4. With the same \<open>s\<close>, the slice expression \<open>s[2:]\<close> is \<open>["c","d","e","f"]\<close>, and the
  third line the program prints is \<open>[c d e f]\<close>.
\<close>

theorem slice_from_2_third_line:
  "items s = [''a'', ''b'', ''c'', ''d'', ''e'', ''f'']
   \<and> (\<exists>l. slice_expr s (Some 2) None = Inr l \<and> items l = [''c'', ''d'', ''e'', ''f''])
   \<and> lines_of (stdout (snd (run_main as env inp))) ! 2 = ''[c d e f]''"
  by (simp add: slice_2_6 items_def s_fields run_main_stdout lines_of_output)

text \<open>
  C8. Every slice expression of the program is within bounds. \<open>s\<close> has length 6, the
  three expressions work with the bounds (2,5), (0,5) and (2,6), each pair satisfies
  \<open>0 \<le> low \<le> high \<le> len(s)\<close>, no slice expression yields a panic, and the
  program ends without one.
\<close>

theorem slices_within_bounds:
  "len s = 6 \<and> cap s = 6
   \<and> low_bound (Some 2) = 2 \<and> high_bound s (Some 5) = 5
   \<and> low_bound None = 0 \<and> high_bound s None = 6
   \<and> (0::int) \<le> 2 \<and> (2::int) \<le> 5 \<and> 5 \<le> int (len s)
   \<and> (0::int) \<le> 0 \<and> (0::int) \<le> 5 \<and> 5 \<le> int (len s)
   \<and> (0::int) \<le> 2 \<and> (2::int) \<le> 6 \<and> 6 \<le> int (len s)
   \<and> (\<forall>p. slice_expr s (Some 2) (Some 5) \<noteq> Inl p)
   \<and> (\<forall>p. slice_expr s None (Some 5) \<noteq> Inl p)
   \<and> (\<forall>p. slice_expr s (Some 2) None \<noteq> Inl p)
   \<and> fst (main w) = None"
  by (simp add: s_fields low_bound_def high_bound_def slice_2_5 slice_0_5 slice_2_6 main_result)

section \<open>Properties of the error-handling tutorial\<close>

lemma fmt_d_42: "fmt_d 42 = ''42''"
  by (simp add: fmt_d_def)

text \<open>
  C5. For every integer \<open>arg\<close>, \<open>f1\<close> returns a non-nil error if and only if \<open>arg\<close> is 42;
  then the result is -1 and the error's message is "can't work with 42". For every
  other \<open>arg\<close> it returns \<open>arg + 3\<close> and a nil error.
\<close>

theorem f1_error_iff_42:
  "(snd (f1 a) \<noteq> None \<longleftrightarrow> a = 42)
   \<and> (a = 42 \<longrightarrow> fst (f1 a) = - 1 \<and> sint (fst (f1 a)) = - 1
        \<and> (\<exists>e. snd (f1 a) = Some e \<and> Error e = ''can't work with 42''))
   \<and> (a \<noteq> 42 \<longrightarrow> f1 a = (a + 3, None))"
  by (simp add: f1_def errors_New_def)

theorem f1_error_iff_42_witness:
  "snd (f1 42) \<noteq> None \<and> fst (f1 42) = - 1 \<and> sint (fst (f1 42)) = - 1
   \<and> (\<exists>e. snd (f1 42) = Some e \<and> Error e = ''can't work with 42'')
   \<and> (7 :: go_int) \<noteq> 42 \<and> f1 7 = (10, None)"
  using f1_error_iff_42 [of 42] f1_error_iff_42 [of 7] by simp

text \<open>
  C6. For every integer \<open>arg\<close>, \<open>f2\<close> returns a non-nil error if and only if \<open>arg\<close> is 42;
  that error is an \<open>*argError\<close> whose \<open>arg\<close> field is 42 and whose \<open>prob\<close> field is
  "can't work with it", and its \<open>Error()\<close> method returns "42 - can't work with it".
  For every other \<open>arg\<close> it returns \<open>arg + 3\<close> and a nil error.
\<close>

theorem f2_error_iff_42:
  "(snd (f2 a) \<noteq> None \<longleftrightarrow> a = 42)
   \<and> (a = 42 \<longrightarrow>
        (\<exists>e. snd (f2 a) = Some (argErrorPtr e) \<and> arg e = 42 \<and> sint (arg e) = 42
             \<and> prob e = ''can't work with it''
             \<and> Error (argErrorPtr e) = ''42 - can't work with it''))
   \<and> (a \<noteq> 42 \<longrightarrow> f2 a = (a + 3, None))"
  by (simp add: f2_def fmt_d_42)

theorem f2_error_iff_42_witness:
  "snd (f2 42) \<noteq> None
   \<and> (\<exists>e. snd (f2 42) = Some (argErrorPtr e) \<and> arg e = 42 \<and> sint (arg e) = 42
          \<and> prob e = ''can't work with it''
          \<and> Error (argErrorPtr e) = ''42 - can't work with it'')
   \<and> (7 :: go_int) \<noteq> 42 \<and> f2 7 = (10, None)"
  using f2_error_iff_42 [of 42] f2_error_iff_42 [of 7] by simp

section \<open>Properties of the generic linked list\<close>

lemma chain_last:
  "chain m p as \<Longrightarrow> as \<noteq> [] \<Longrightarrow> next (cells m (last as)) = None \<and> last as < fresh m"
proof (induction as arbitrary: p)
  case Nil
  then show ?case by simp
next
  case (Cons a as)
  then show ?case by (cases as) auto
qed

lemma GetAll_loop_chain:
  "chain m p as \<Longrightarrow> GetAll_loop m p acc = Some (acc @ map (\<lambda>a. val (cells m a)) as)"
proof (induction as arbitrary: p acc)
  case Nil
  then show ?case by (simp add: GetAll_loop.simps)
next
  case (Cons a as)
  from Cons.prems have p: "p = Some a" and rest: "chain m (next (cells m a)) as"
    by simp_all
  show ?case
    using Cons.IH [OF rest, of "acc @ [val (cells m a)]"] p
    by (subst GetAll_loop.simps) simp
qed

lemma link_simps:
  "fresh (link m t v) = Suc (fresh m)"
  "a \<noteq> t \<Longrightarrow> a \<noteq> fresh m \<Longrightarrow> cells (link m t v) a = cells m a"
  "t \<noteq> fresh m \<Longrightarrow> cells (link m t v) t = (cells m t)\<lparr>next := Some (fresh m)\<rparr>"
  "t \<noteq> fresh m \<Longrightarrow> cells (link m t v) (fresh m) = \<lparr>next = None, val = v\<rparr>"
  by (simp_all add: link_def)

lemma chain_link:
  "chain m p as \<Longrightarrow> as \<noteq> [] \<Longrightarrow> chain (link m (last as) v) p (as @ [fresh m])"
proof (induction as arbitrary: p)
  case Nil
  then show ?case by simp
next
  case (Cons a as)
  from Cons.prems have p: "p = Some a" and a: "a < fresh m"
    and rest: "chain m (next (cells m a)) as"
    by simp_all
  show ?case
  proof (cases as)
    case Nil
    with p a rest show ?thesis by (simp add: link_simps)
  next
    case (Cons b bs)
    then have ne: "as \<noteq> []" by simp
    from chain_last [OF rest ne] have t: "next (cells m (last as)) = None" "last as < fresh m"
      by simp_all
    from rest Cons have "next (cells m a) = Some b" by simp
    with t have "a \<noteq> last as" by auto
    with a have same: "cells (link m (last as) v) a = cells m a"
      by (simp add: link_simps)
    from Cons.IH [OF rest ne] same p a ne show ?thesis
      by (simp add: link_simps)
  qed
qed

lemma vals_link:
  "chain m p as \<Longrightarrow> t < fresh m \<Longrightarrow>
   map (\<lambda>a. val (cells (link m t v) a)) as = map (\<lambda>a. val (cells m a)) as"
proof (induction as arbitrary: p)
  case Nil
  then show ?case by simp
next
  case (Cons a as)
  from Cons.prems have a: "a < fresh m" and rest: "chain m (next (cells m a)) as"
    by simp_all
  have "val (cells (link m t v) a) = val (cells m a)"
    using a Cons.prems(2) by (cases "a = t") (simp_all add: link_simps)
  with Cons.IH [OF rest Cons.prems(2)] show ?case by simp
qed

lemma holds_empty: "holds (empty_List, m) []"
  by (simp add: holds_def empty_List_def)

lemma Push_first:
  "tail lst = None \<Longrightarrow>
   Push v (lst, m) =
     (lst\<lparr>head := Some (fresh m), tail := Some (fresh m)\<rparr>,
      m\<lparr>cells := (cells m)(fresh m := \<lparr>next = None, val = v\<rparr>), fresh := Suc (fresh m)\<rparr>)"
  by (simp add: Push_def new_def)

lemma Push_later:
  "tail lst = Some t \<Longrightarrow> t \<noteq> fresh m \<Longrightarrow>
   Push v (lst, m) = (lst\<lparr>tail := Some (fresh m)\<rparr>, link m t v)"
  by (simp add: Push_def new_def link_def Let_def)

lemma holds_Push: "holds st vs \<Longrightarrow> holds (Push v st) (vs @ [v])"
proof -
  assume h: "holds st vs"
  obtain lst m where st: "st = (lst, m)" by (cases st)
  from h st obtain as where c: "chain m (head lst) as"
    and vals: "map (\<lambda>a. val (cells m a)) as = vs"
    and tl: "tail lst = (if as = [] then None else Some (last as))"
    by (auto simp: holds_def)
  show ?thesis
  proof (cases "as = []")
    case True
    with c vals tl have "head lst = None" "vs = []" "tail lst = None" by simp_all
    then show ?thesis
      unfolding st holds_def
      by (simp add: Push_first) (rule exI [of _ "[fresh m]"], simp)
  next
    case False
    from chain_last [OF c False] have t: "next (cells m (last as)) = None" "last as < fresh m"
      by simp_all
    from False tl have tl': "tail lst = Some (last as)" by simp
    have P: "Push v (lst, m) = (lst\<lparr>tail := Some (fresh m)\<rparr>, link m (last as) v)"
      using Push_later [OF tl', where m = m and v = v] t by simp
    have c': "chain (link m (last as) v) (head lst) (as @ [fresh m])"
      by (rule chain_link [OF c False])
    have v': "map (\<lambda>a. val (cells (link m (last as) v) a)) (as @ [fresh m]) = vs @ [v]"
      using vals_link [OF c t(2), of v] vals t by (simp add: link_simps)
    show ?thesis
      unfolding st P holds_def
      using c' v' by (simp, intro exI [of _ "as @ [fresh m]"], simp)
  qed
qed

lemma holds_pushes: "holds st ws \<Longrightarrow> holds (pushes vs st) (ws @ vs)"
proof (induction vs arbitrary: st ws)
  case Nil
  then show ?case by simp
next
  case (Cons v vs)
  from Cons.IH [OF holds_Push [OF Cons.prems, of v]] show ?case by simp
qed

lemma holds_GetAll: "holds st vs \<Longrightarrow> GetAll st = Some vs"
  by (auto simp: holds_def GetAll_def GetAll_loop_chain)

text \<open>
  C9. For every element type and every finite sequence of values pushed, in that order,
  onto an initially empty list, \<open>GetAll\<close> returns exactly those values in push order;
  in particular \<open>GetAll\<close> on the empty list returns the empty result.
\<close>

theorem GetAll_pushes:
  "GetAll (pushes vs (empty_List, m)) = Some vs \<and> GetAll (empty_List, m) = Some []"
  using holds_GetAll [OF holds_pushes [OF holds_empty, of vs m]] holds_GetAll [OF holds_empty, of m]
  by simp

section \<open>Properties of the closures\<close>

lemma intSeq_eq: "intSeq m = (FuncLit (fresh m), \<lparr>cells = (cells m)(fresh m := 0), fresh = Suc (fresh m)\<rparr>)"
  by (simp add: intSeq_def new_def)

lemma call_eq: "call (FuncLit j) m = (cells m j + 1, m\<lparr>cells := (cells m)(j := cells m j + 1)\<rparr>)"
  by (simp add: Let_def)

lemma returns_from:
  "cells m i = of_nat k \<Longrightarrow> i < fresh m \<Longrightarrow>
   returns (FuncLit i) as m = map of_nat [Suc k ..< Suc (k + count_list as (Call (FuncLit i)))]"
proof (induction as arbitrary: m k)
  case Nil
  then show ?case by simp
next
  case (Cons a as)
  show ?case
  proof (cases a)
    case NewSeq
    have "cells (snd (intSeq m)) i = of_nat k" "i < fresh (snd (intSeq m))"
      using Cons.prems by (simp_all add: intSeq_eq)
    from Cons.IH [OF this] NewSeq show ?thesis by simp
  next
    case (Call g)
    obtain j where g: "g = FuncLit j" by (cases g)
    show ?thesis
    proof (cases "j = i")
      case True
      have "cells (snd (call (FuncLit i) m)) i = of_nat (Suc k)" "i < fresh (snd (call (FuncLit i) m))"
        using Cons.prems by (simp_all add: call_eq)
      from Cons.IH [OF this] Call g True Cons.prems show ?thesis
        by (simp add: call_eq upt_conv_Cons del: upt_Suc)
    next
      case False
      have "cells (snd (call (FuncLit j) m)) i = of_nat k" "i < fresh (snd (call (FuncLit j) m))"
        using Cons.prems False by (simp_all add: call_eq)
      from Cons.IH [OF this] Call g False show ?thesis
        by (simp add: call_eq)
    qed
  qed
qed

lemma returns_intSeq:
  "intSeq m0 = (f, m1) \<Longrightarrow> returns f as m1 = map of_nat [1 ..< Suc (count_list as (Call f))]"
  using returns_from [of m1 "fresh m0" 0 as]
  by (auto simp: intSeq_eq)

lemma fresh_exec: "fresh m \<le> fresh (exec as m)"
proof (induction as arbitrary: m)
  case Nil
  then show ?case by simp
next
  case (Cons a as)
  show ?case
  proof (cases a)
    case NewSeq
    with Cons.IH [of "snd (intSeq m)"] show ?thesis by (simp add: intSeq_eq)
  next
    case (Call g)
    obtain j where "g = FuncLit j" by (cases g)
    with Call Cons.IH [of "snd (call (FuncLit j) m)"] show ?thesis by (simp add: call_eq)
  qed
qed

lemma call_other:
  "f \<noteq> g \<Longrightarrow> fst (call f (snd (call g m))) = fst (call f m)"
  by (cases f; cases g) (simp add: call_eq)

lemma sint_in_range:
  "n < 2 ^ (LENGTH('w::len) - 1) \<Longrightarrow> sint (of_nat n :: 'w word) = int n"
proof -
  assume "n < 2 ^ (LENGTH('w) - 1)"
  then have "int n < int (2 ^ (LENGTH('w) - 1))" by (simp only: of_nat_less_iff)
  then have less: "int n < 2 ^ (LENGTH('w) - Suc 0)"
    by (simp only: of_nat_power of_nat_numeral One_nat_def)
  have "- (2 ^ (LENGTH('w) - Suc 0)) \<le> (0::int)" by simp
  also have "0 \<le> int n" by simp
  finally have "signed_take_bit (LENGTH('w) - Suc 0) (int n) = int n"
    using less by (rule signed_take_bit_int_eq_self)
  then show ?thesis by (simp add: signed_of_nat)
qed

lemma count_replicate: "count_list (replicate n x) x = n"
  by (induction n) simp_all


lemma last_call_value:
  assumes "intSeq m0 = (f, m1)" and "0 < N"
  shows "returns f (replicate N (Call f)) m1 ! (N - 1) = of_nat N"
proof -
  have "returns f (replicate N (Call f)) m1 = map of_nat [1 ..< Suc N]"
    using returns_intSeq [OF assms(1), of "replicate N (Call f)"]
    by (simp only: count_replicate)
  moreover have "N - 1 < length [1 ..< Suc N]" using assms(2) by simp
  moreover have "[1 ..< Suc N] ! (N - 1) = N" using assms(2) by (simp del: upt_Suc)
  ultimately show ?thesis by (simp del: upt_Suc)
qed

lemma wrapped_32: "sint (of_nat (2 ^ 31) :: 32 word) = - (2 ^ 31)"
  by simp

lemma wrapped_64: "sint (of_nat (2 ^ 63) :: 64 word) = - (2 ^ 63)"
  by simp

text \<open>
  C10, as the code has it, for an \<open>int\<close> of any width. For every function value \<open>f\<close>
  returned by \<open>intSeq\<close>, whatever the program does afterwards (further calls of \<open>intSeq\<close>,
  calls of \<open>f\<close> and of other function values, in any order), the calls of \<open>f\<close> return
  1, 2, 3, ... as \<open>int\<close> values: the n-th call returns n for every n from 1 up to the
  largest \<open>int\<close> of the platform, \<open>2 ^ (LENGTH('w) - 1) - 1\<close> (that is \<open>2^31 - 1\<close> on a
  32-bit build and \<open>2^63 - 1\<close> on a 64-bit build). A function value returned by another
  call of \<open>intSeq\<close> is a different one, and calling either never changes what the other
  returns.
\<close>

theorem intSeq_counters:
  fixes m0 :: "'w::len word memory"
  assumes "intSeq m0 = (f, m1)"
  shows "returns f as m1 = map of_nat [1 ..< Suc (count_list as (Call f))]
    \<and> (1 \<le> n \<and> n \<le> count_list as (Call f) \<and> n < 2 ^ (LENGTH('w) - 1)
         \<longrightarrow> sint (returns f as m1 ! (n - 1)) = int n)
    \<and> (intSeq (exec as m1) = (g, m2)
         \<longrightarrow> g \<noteq> f
           \<and> (\<forall>m :: 'w word memory.
                  fst (call f (snd (call g m))) = fst (call f m)
                  \<and> fst (call g (snd (call f m))) = fst (call g m)))"
proof (intro conjI impI)
  show r: "returns f as m1 = map of_nat [1 ..< Suc (count_list as (Call f))]"
    by (rule returns_intSeq [OF assms])
  show "sint (returns f as m1 ! (n - 1)) = int n"
    if "1 \<le> n \<and> n \<le> count_list as (Call f) \<and> n < 2 ^ (LENGTH('w) - 1)"
  proof -
    from that have n1: "1 \<le> n" and n2: "n \<le> count_list as (Call f)"
      and n3: "n < 2 ^ (LENGTH('w) - 1)"
      by blast+
    from n1 n2 have "n - 1 < length [1 ..< Suc (count_list as (Call f))]" by simp
    moreover from n1 n2 have "[1 ..< Suc (count_list as (Call f))] ! (n - 1) = n"
      by (simp del: upt_Suc)
    ultimately have "returns f as m1 ! (n - 1) = of_nat n"
      unfolding r by (simp del: upt_Suc)
    with n3 show ?thesis by (simp only: sint_in_range)
  qed
  assume g: "intSeq (exec as m1) = (g, m2)"
  from assms have "f = FuncLit (fresh m0)" "fresh m1 = Suc (fresh m0)"
    by (auto simp: intSeq_eq)
  moreover from g have "g = FuncLit (fresh (exec as m1))" by (auto simp: intSeq_eq)
  moreover note fresh_exec [of m1 as]
  ultimately show ne: "g \<noteq> f" by auto
  show "\<forall>m :: 'w word memory.
          fst (call f (snd (call g m))) = fst (call f m)
          \<and> fst (call g (snd (call f m))) = fst (call g m)"
  proof (intro allI conjI)
    fix m :: "'w word memory"
    show "fst (call f (snd (call g m))) = fst (call f m)"
      by (rule call_other [OF ne [symmetric]])
    show "fst (call g (snd (call f m))) = fst (call g m)"
      by (rule call_other [OF ne])
  qed
qed

theorem intSeq_counters_witness:
  "intSeq (boot :: 32 word memory) = (FuncLit 0, snd (intSeq boot))
   \<and> returns (FuncLit 0) [Call (FuncLit 0), Call (FuncLit 0), Call (FuncLit 0)]
        (snd (intSeq (boot :: 32 word memory))) = [1, 2, 3]
   \<and> sint (returns (FuncLit 0) [Call (FuncLit 0), Call (FuncLit 0), Call (FuncLit 0)]
             (snd (intSeq (boot :: 32 word memory))) ! 2) = 3
   \<and> intSeq (exec [Call (FuncLit 0), Call (FuncLit 0), Call (FuncLit 0)]
                (snd (intSeq (boot :: 32 word memory))))
       = (FuncLit 1,
          snd (intSeq (exec [Call (FuncLit 0), Call (FuncLit 0), Call (FuncLit 0)]
                         (snd (intSeq boot)))))
   \<and> FuncLit 1 \<noteq> FuncLit 0
   \<and> fst (call (FuncLit 0) (snd (call (FuncLit 1) (boot :: 32 word memory))))
       = fst (call (FuncLit 0) (boot :: 32 word memory))
   \<and> intSeq (boot :: 64 word memory) = (FuncLit 0, snd (intSeq boot))
   \<and> returns (FuncLit 0) [Call (FuncLit 0), Call (FuncLit 0), Call (FuncLit 0)]
        (snd (intSeq (boot :: 64 word memory))) = [1, 2, 3]
   \<and> sint (returns (FuncLit 0) [Call (FuncLit 0), Call (FuncLit 0), Call (FuncLit 0)]
             (snd (intSeq (boot :: 64 word memory))) ! 2) = 3"
proof -
  have c: "intSeq (boot :: 32 word memory) = (FuncLit 0, snd (intSeq boot))"
    by (simp add: intSeq_eq boot_def)
  have d: "intSeq (boot :: 64 word memory) = (FuncLit 0, snd (intSeq boot))"
    by (simp add: intSeq_eq boot_def)
  show ?thesis
    using c d
      intSeq_counters [OF c, where as = "[Call (FuncLit 0), Call (FuncLit 0), Call (FuncLit 0)]"
        and n = 3 and g = "FuncLit 1"
        and ?m2.0 = "snd (intSeq (exec [Call (FuncLit 0), Call (FuncLit 0), Call (FuncLit 0)] (snd (intSeq boot))))"]
      intSeq_counters [OF d, where as = "[Call (FuncLit 0), Call (FuncLit 0), Call (FuncLit 0)]"
        and n = 3 and g = "FuncLit 1"
        and ?m2.0 = "snd (intSeq (exec [Call (FuncLit 0), Call (FuncLit 0), Call (FuncLit 0)] (snd (intSeq boot))))"]
    by (simp add: intSeq_eq boot_def call_eq)
qed

text \<open>
  The bound on n is needed, at either width. On the first function value of a program
  built for 32 bits, the call number \<open>2^31\<close> increments \<open>2^31 - 1\<close> and returns \<open>-2^31\<close>,
  not \<open>2^31\<close>; built for 64 bits, the call number \<open>2^63\<close> returns \<open>-2^63\<close>, not \<open>2^63\<close>.
\<close>

theorem intSeq_wraps_counterexample:
  "sint (returns (fst (intSeq (boot :: 32 word memory)))
           (replicate (2 ^ 31) (Call (fst (intSeq (boot :: 32 word memory)))))
           (snd (intSeq (boot :: 32 word memory))) ! (2 ^ 31 - 1)) = - (2 ^ 31)
   \<and> sint (returns (fst (intSeq (boot :: 32 word memory)))
           (replicate (2 ^ 31) (Call (fst (intSeq (boot :: 32 word memory)))))
           (snd (intSeq (boot :: 32 word memory))) ! (2 ^ 31 - 1)) \<noteq> int (2 ^ 31)
   \<and> sint (returns (fst (intSeq (boot :: 64 word memory)))
           (replicate (2 ^ 63) (Call (fst (intSeq (boot :: 64 word memory)))))
           (snd (intSeq (boot :: 64 word memory))) ! (2 ^ 63 - 1)) = - (2 ^ 63)
   \<and> sint (returns (fst (intSeq (boot :: 64 word memory)))
           (replicate (2 ^ 63) (Call (fst (intSeq (boot :: 64 word memory)))))
           (snd (intSeq (boot :: 64 word memory))) ! (2 ^ 63 - 1)) \<noteq> int (2 ^ 63)"
proof -
  have c: "intSeq (boot :: 32 word memory)
             = (fst (intSeq (boot :: 32 word memory)), snd (intSeq (boot :: 32 word memory)))"
    by simp
  have d: "intSeq (boot :: 64 word memory)
             = (fst (intSeq (boot :: 64 word memory)), snd (intSeq (boot :: 64 word memory)))"
    by simp
  have p31: "(0::nat) < 2 ^ 31" and p63: "(0::nat) < 2 ^ 63" by simp_all
  have a: "returns (fst (intSeq (boot :: 32 word memory)))
           (replicate (2 ^ 31) (Call (fst (intSeq (boot :: 32 word memory)))))
           (snd (intSeq (boot :: 32 word memory))) ! (2 ^ 31 - 1) = of_nat (2 ^ 31)"
    by (rule last_call_value [OF c p31])
  have b: "returns (fst (intSeq (boot :: 64 word memory)))
           (replicate (2 ^ 63) (Call (fst (intSeq (boot :: 64 word memory)))))
           (snd (intSeq (boot :: 64 word memory))) ! (2 ^ 63 - 1) = of_nat (2 ^ 63)"
    by (rule last_call_value [OF d p63])
  have "sint (of_nat (2 ^ 31) :: 32 word) \<noteq> int (2 ^ 31)"
    and "sint (of_nat (2 ^ 63) :: 64 word) \<noteq> int (2 ^ 63)"
    by (simp_all only: wrapped_32 wrapped_64) simp_all
  then show ?thesis by (simp only: a b wrapped_32 wrapped_64) simp
qed

section \<open>Properties of the worker pool\<close>

lemma inv_init: "pool_inv init"
  by (simp add: pool_inv_def init_def make_chan_def)

lemma worker_keeps:
  assumes "\<not> is_closed (results p)"
  shows "worker w p \<noteq> Panics e"
    and "worker w p = Steps (w', p') \<Longrightarrow>
           main_at p' = main_at p \<and> jobs_log p' = jobs_log p \<and> crashed p' = crashed p
           \<and> is_closed (jobs p') = is_closed (jobs p) \<and> is_closed (results p') = is_closed (results p)"
  using assms
  by (cases w; auto simp: recv_def send_def split: list.splits if_splits outcome.splits)+

lemma inv_step_worker: "pool_inv p \<Longrightarrow> pool_inv (step (Worker k) p)"
  using worker_keeps [of p]
  by (auto simp: pool_inv_def step_def split: outcome.splits)

lemma inv_step_main: "pool_inv p \<Longrightarrow> pool_inv (step Main p)"
  by (cases "main_at p")
     (auto simp: pool_inv_def step_def pool_main_def send_def close_def recv_def five_sends_def
        numWorkers_def split: outcome.splits list.splits if_splits)

lemma inv_step: "pool_inv p \<Longrightarrow> pool_inv (step g p)"
  by (cases g) (simp_all add: inv_step_main inv_step_worker)

lemma inv_run: "pool_inv p \<Longrightarrow> pool_inv (run gs p)"
  by (induction gs arbitrary: p) (simp_all add: inv_step)


lemma inv_facts:
  assumes "pool_inv p"
  shows "crashed p = None"
    and "pool_main p \<noteq> Panics SendOnClosedChannel"
    and "\<not> send_after_close (jobs_log p)"
    and "is_closed (jobs p) \<longleftrightarrow> Closed \<in> set (jobs_log p)"
    and "is_closed (jobs p) \<Longrightarrow> jobs_log p = [Sent 1, Sent 2, Sent 3, Sent 4, Sent 5, Closed]"
proof -
  from assms show "crashed p = None" by (simp add: pool_inv_def)
  from assms show "pool_main p \<noteq> Panics SendOnClosedChannel"
    by (cases "main_at p")
       (auto simp: pool_inv_def pool_main_def send_def close_def recv_def
          split: outcome.splits list.splits if_splits)
  from assms show "\<not> send_after_close (jobs_log p)"
    by (cases "main_at p") (auto simp: pool_inv_def five_sends_def)
  from assms show "is_closed (jobs p) \<longleftrightarrow> Closed \<in> set (jobs_log p)"
    by (cases "main_at p") (auto simp: pool_inv_def five_sends_def)
  from assms show "is_closed (jobs p) \<Longrightarrow> jobs_log p = [Sent 1, Sent 2, Sent 3, Sent 4, Sent 5, Closed]"
    by (cases "main_at p") (auto simp: pool_inv_def five_sends_def)
qed

text \<open>
  C7. In every execution of the worker pool, whatever the scheduler does, no send on
  \<open>jobs\<close> takes effect after \<open>close(jobs)\<close>: the log of \<open>jobs\<close> never has a send after
  a close, \<open>jobs\<close> is closed exactly when the log has the close, and then the log is the
  five sends of 1 to 5 followed by the close. No execution panics, and \<open>main\<close> is never
  at a step that would panic with a send on a closed channel.
\<close>

theorem no_send_after_close:
  "crashed (run gs init) = None
   \<and> pool_main (run gs init) \<noteq> Panics SendOnClosedChannel
   \<and> \<not> send_after_close (jobs_log (run gs init))
   \<and> (is_closed (jobs (run gs init)) \<longleftrightarrow> Closed \<in> set (jobs_log (run gs init)))
   \<and> (is_closed (jobs (run gs init))
        \<longrightarrow> jobs_log (run gs init) = [Sent 1, Sent 2, Sent 3, Sent 4, Sent 5, Closed])"
  using inv_facts [OF inv_run [OF inv_init, of gs]] by blast

lemma run_sched:
  "run sched init =
     \<lparr>jobs = \<lparr>buffer = [3, 4, 5], capacity = 10, is_closed = True\<rparr>,
      results = \<lparr>buffer = [2], capacity = 10, is_closed = False\<rparr>,
      main_at = Receive 1, workers = [Ranging, Ranging, Deliver 4],
      console = [], crashed = None,
      jobs_log = [Sent 1, Sent 2, Sent 3, Sent 4, Sent 5, Closed]\<rparr>"
  by (simp add: sched_def init_def make_chan_def step_def pool_main_def numWorkers_def
      send_def recv_def close_def)


theorem no_send_after_close_witness:
  "is_closed (jobs (run sched init))
   \<and> jobs_log (run sched init) = [Sent 1, Sent 2, Sent 3, Sent 4, Sent 5, Closed]
   \<and> crashed (run sched init) = None"
  using no_send_after_close [of sched] by (simp add: run_sched)

end
